theory Spec2Isabelle
  imports Main "HOL-Library.Char_ord" "HOL-Library.List_Lexorder" "HOL-Library.Multiset"
begin

section \<open>Python values the program handles\<close>

text \<open>
  The program is \<^verbatim>\<open>GUI.py\<close>: a Tk application that reads a service plan from the
  Planning Center API and drives a DiGiCo console over OSC. The embedding covers
  \<^verbatim>\<open>format_time_label\<close>, the body of \<^verbatim>\<open>on_load_plan_times\<close> that fills the
  plan-time list, \<^verbatim>\<open>_collect_preview_rows\<close> and the send loop of \<^verbatim>\<open>on_send\<close>.

  Python \<^verbatim>\<open>str\<close> is \<^typ>\<open>string\<close>, compared as Python compares strings (element by
  element, a proper prefix first); Python \<^verbatim>\<open>int\<close> is \<^typ>\<open>int\<close>. An exception that
  leaves a function is the \<open>Inl\<close> of its result.
\<close>

datatype exn = AttributeError | TypeError | ValueError | OSError

text \<open>
  An attribute of the \<^verbatim>\<open>App\<close> object: not set at all, bound to \<^verbatim>\<open>None\<close>, or bound
  to a value. \<^verbatim>\<open>hasattr\<close> asks only whether the attribute is set.
\<close>

datatype 'a pyattr = NoAttr | PyNone | Val 'a

definition hasattr :: "'a pyattr \<Rightarrow> bool" where
  "hasattr a = (a \<noteq> NoAttr)"

text \<open>\<^verbatim>\<open>x or d\<close> for \<^verbatim>\<open>x\<close> a string or \<^verbatim>\<open>None\<close>: the empty string and \<^verbatim>\<open>None\<close> are falsy.\<close>

definition py_or :: "string option \<Rightarrow> string \<Rightarrow> string" where
  "py_or x d = (case x of None \<Rightarrow> d | Some s \<Rightarrow> if s = [] then d else s)"

text \<open>
  \<^verbatim>\<open>datetime\<close>: the wall-clock reading in microseconds since 0001-01-01T00:00, and the
  UTC offset in microseconds when the value is aware (\<open>None\<close> for a naive value).
  \<^verbatim>\<open>datetime.max\<close> is the naive 9999-12-31T23:59:59.999999.
\<close>

record datetime =
  wall :: int
  utcoffset :: "int option"


text \<open>
  \<^verbatim>\<open>a < b\<close> on datetimes: two naive values compare by wall clock, two aware values by
  their UTC instants, and a naive value against an aware one raises \<^verbatim>\<open>TypeError\<close>.
\<close>

definition utc_instant :: "datetime \<Rightarrow> int" where
  "utc_instant d = (case utcoffset d of None \<Rightarrow> wall d | Some off \<Rightarrow> wall d - off)"

definition dt_less :: "datetime \<Rightarrow> datetime \<Rightarrow> exn + bool" where
  "dt_less a b =
     (if (utcoffset a = None) \<noteq> (utcoffset b = None) then Inl TypeError
      else Inr (utc_instant a < utc_instant b))"

text \<open>
  The library calls the program makes, taken as parameters: \<^verbatim>\<open>str.strip\<close>,
  \<^verbatim>\<open>int\<close> on a string (\<open>None\<close> when it raises \<^verbatim>\<open>ValueError\<close>),
  \<^verbatim>\<open>datetime.fromisoformat\<close> (\<open>None\<close> when it raises) and the rendering
  \<^verbatim>\<open>astimezone(LOCAL_TZ).strftime("%I:%M %p")\<close> of an instant, a naive value read as UTC
  (\<open>None\<close> when it raises).
\<close>

record pylib =
  str_strip :: "string \<Rightarrow> string"
  py_int :: "string \<Rightarrow> int option"
  fromisoformat :: "string \<Rightarrow> datetime option"
  local_clock :: "datetime \<Rightarrow> string option"

section \<open>Planning data\<close>

text \<open>
  The resource objects of the JSON:API documents, with the members the program reads.
  A member read with \<^verbatim>\<open>.get\<close> is an option: \<open>None\<close> when the key is absent or its
  value is \<^verbatim>\<open>null\<close>. The chain
  \<^verbatim>\<open>it.get("relationships", {}).get(r, {}).get("data", {}).get("id")\<close> is one option:
  \<open>None\<close> when a key of the chain is absent or the id is \<^verbatim>\<open>null\<close>.

  The records are the documents the planning API delivers: timestamps, titles, types and
  ids are strings, \<^verbatim>\<open>exclude\<close> is a boolean, the members read with \<^verbatim>\<open>[...]\<close>
  (\<^verbatim>\<open>attributes\<close>, \<^verbatim>\<open>id\<close>) are present, and a \<^verbatim>\<open>relationships\<close>, relationship or
  \<^verbatim>\<open>data\<close> member that is present is an object. On a document outside these records
  (\<^verbatim>\<open>"data": null\<close> in a relationship, a resource without \<^verbatim>\<open>attributes\<close>) the source
  raises \<^verbatim>\<open>AttributeError\<close> or \<^verbatim>\<open>KeyError\<close>; the embedding does not cover it.

  Strings are compared byte by byte, a proper prefix first. On UTF-8 this is the order
  of the code points, the order Python compares \<^verbatim>\<open>str\<close> in.
\<close>

record item_time =
  it_type :: "string option"
  it_plan_time_id :: "string option"
  it_item_id :: "string option"
  it_live_start_at :: "string option"
  it_starts_at :: "string option"
  it_exclude :: "bool option"

record plan_item =
  pi_id :: string
  pi_item_type :: "string option"
  pi_title :: "string option"

record plan_time_res =
  pt_id :: string
  pt_name :: "string option"
  pt_starts_at :: "string option"

text \<open>\<^verbatim>\<open>items_data\<close>: its \<^verbatim>\<open>included\<close> and \<^verbatim>\<open>data\<close> arrays, empty when absent.\<close>

record items_doc =
  doc_included :: "item_time list"
  doc_data :: "plan_item list"

text \<open>An entry of \<^verbatim>\<open>self.plan_times\<close>: \<^verbatim>\<open>(id, label, starts_at_dt)\<close>.\<close>

type_synonym plan_time = "string \<times> string \<times> datetime option"

text \<open>
  The state \<^verbatim>\<open>_collect_preview_rows\<close> reads. The list box \<^verbatim>\<open>lst_times\<close> is its lines,
  each with its selection flag.
\<close>

record app =
  items_data :: "items_doc pyattr"
  times_data :: "plan_time_res list pyattr"
  plan_times :: "plan_time list"
  lst_times :: "(string \<times> bool) list"
  chk_has_existing :: bool
  var_existing_count :: string


record preview_row =
  name :: string
  snap_index :: int
  seq :: int

section \<open>The Sequence Builder: \<^verbatim>\<open>_collect_preview_rows\<close>\<close>

definition curselection :: "(string \<times> bool) list \<Rightarrow> nat list" where
  "curselection lb = filter (\<lambda>i. snd (lb ! i)) [0..<length lb]"

definition lb_get :: "(string \<times> bool) list \<Rightarrow> nat \<Rightarrow> string" where
  "lb_get lb i = fst (lb ! i)"

text \<open>\<^verbatim>\<open>label or "(default)"\<close>.\<close>

definition or_default :: "string \<Rightarrow> string" where
  "or_default label = (if label = [] then ''(default)'' else label)"

text \<open>
  \<^verbatim>\<open>time_id_by_label.setdefault(key, []).append(tid)\<close> over \<^verbatim>\<open>self.plan_times\<close>.
\<close>

fun time_id_by_label :: "plan_time list \<Rightarrow> (string \<rightharpoonup> string list) \<Rightarrow> (string \<rightharpoonup> string list)" where
  "time_id_by_label [] m = m"
| "time_id_by_label ((tid, label, dt) # pts) m =
     (let key = or_default label
      in time_id_by_label pts (m(key \<mapsto> (case m key of None \<Rightarrow> [] | Some ids \<Rightarrow> ids) @ [tid])))"

text \<open>\<^verbatim>\<open>d.get(k, [])\<close>.\<close>

definition get_list :: "('k \<rightharpoonup> 'v list) \<Rightarrow> 'k \<Rightarrow> 'v list" where
  "get_list d k = (case d k of None \<Rightarrow> [] | Some v \<Rightarrow> v)"

fun selected_time_ids :: "(string \<rightharpoonup> string list) \<Rightarrow> string list \<Rightarrow> string list \<Rightarrow> string list" where
  "selected_time_ids m [] acc = acc"
| "selected_time_ids m (lbl # lbls) acc =
     selected_time_ids m lbls (acc @ get_list m (or_default lbl))"

text \<open>The offset: lines 541 to 549.\<close>

definition snapshot_offset :: "pylib \<Rightarrow> bool \<Rightarrow> string \<Rightarrow> int" where
  "snapshot_offset lib has_existing count_text =
     (let stripped = str_strip lib count_text;
          existing_count = (case py_int lib (if stripped = [] then ''0'' else stripped) of
                              None \<Rightarrow> 0 | Some n \<Rightarrow> n);
          existing_count = (if existing_count < 0 then 0 else existing_count)
      in if has_existing then existing_count else 0)"

text \<open>
  \<^verbatim>\<open>by_time\<close>: one list per selected time id, filled from the included resources in
  their order.
\<close>

definition by_time_init :: "string list \<Rightarrow> (string \<rightharpoonup> item_time list)" where
  "by_time_init tids = map_of (map (\<lambda>tid. (tid, [])) tids)"

fun by_time_fill :: "item_time list \<Rightarrow> (string \<rightharpoonup> item_time list) \<Rightarrow> (string \<rightharpoonup> item_time list)" where
  "by_time_fill [] bt = bt"
| "by_time_fill (it # its) bt =
     (if it_type it \<noteq> Some ''ItemTime'' then by_time_fill its bt
      else case it_plan_time_id it of
             None \<Rightarrow> by_time_fill its bt
           | Some tid \<Rightarrow>
               (case bt tid of
                  None \<Rightarrow> by_time_fill its bt
                | Some arr \<Rightarrow> by_time_fill its (bt(tid \<mapsto> arr @ [it]))))"

text \<open>The sort key of line 568: live start, else scheduled start, else the empty string.\<close>

definition ordering_key :: "item_time \<Rightarrow> string" where
  "ordering_key x = py_or (it_live_start_at x) (py_or (it_starts_at x) '''')"

text \<open>
  The loop that builds \<^verbatim>\<open>sequences\<close> sorts each list of \<^verbatim>\<open>by_time\<close> in place and
  appends the list object itself, so \<^verbatim>\<open>by_time\<close> is a store and an entry of
  \<^verbatim>\<open>sequences\<close> refers into it: \<open>Stored tid\<close> is the list object under \<open>tid\<close>,
  \<open>Fresh\<close> the new empty list that \<^verbatim>\<open>by_time.get(tid, [])\<close> makes for a missing key.
\<close>

datatype arr_ref = Stored string | Fresh

type_synonym seq_state = "(string \<rightharpoonup> item_time list) \<times> (string \<times> arr_ref) list"

fun sequences_tids :: "string \<Rightarrow> string list \<Rightarrow> seq_state \<Rightarrow> seq_state" where
  "sequences_tids lbl [] st = st"
| "sequences_tids lbl (tid # tids) (bt, sqs) =
     (case bt tid of
        None \<Rightarrow> sequences_tids lbl tids (bt, sqs @ [(lbl, Fresh)])
      | Some arr \<Rightarrow>
          sequences_tids lbl tids (bt(tid \<mapsto> sort_key ordering_key arr), sqs @ [(lbl, Stored tid)]))"

fun sequences_labels :: "(string \<rightharpoonup> string list) \<Rightarrow> string list \<Rightarrow> seq_state \<Rightarrow> seq_state" where
  "sequences_labels m [] st = st"
| "sequences_labels m (lbl # lbls) st =
     sequences_labels m lbls (sequences_tids lbl (get_list m (or_default lbl)) st)"

definition deref :: "(string \<rightharpoonup> item_time list) \<Rightarrow> arr_ref \<Rightarrow> item_time list" where
  "deref bt r = (case r of Fresh \<Rightarrow> [] | Stored tid \<Rightarrow> get_list bt tid)"

text \<open>\<^verbatim>\<open>next((p for p in plan_items if p["id"] == item_id), None)\<close>.\<close>

definition find_item :: "plan_item list \<Rightarrow> string \<Rightarrow> plan_item option" where
  "find_item plan_items item_id = find (\<lambda>p. pi_id p = item_id) plan_items"

text \<open>\<^verbatim>\<open>s.replace('"', "'")\<close>.\<close>

definition replace_quotes :: "string \<Rightarrow> string" where
  "replace_quotes s = map (\<lambda>c. if c = CHR 0x22 then CHR 0x27 else c) s"

text \<open>The body of the loop over one list: lines 575 to 590, appending to \<^verbatim>\<open>rows\<close>.\<close>

fun rows_of_arr :: "plan_item list \<Rightarrow> item_time list \<Rightarrow> string list \<Rightarrow> string list" where
  "rows_of_arr plan_items [] rows = rows"
| "rows_of_arr plan_items (it # its) rows =
     (if it_exclude it = Some True then rows_of_arr plan_items its rows
      else case it_item_id it of
             None \<Rightarrow> rows_of_arr plan_items its rows
           | Some item_id \<Rightarrow>
               if item_id = [] then rows_of_arr plan_items its rows
               else (case find_item plan_items item_id of
                       None \<Rightarrow> rows_of_arr plan_items its rows
                     | Some item \<Rightarrow>
                         if pi_item_type item \<notin> {Some ''item'', Some ''song''}
                         then rows_of_arr plan_items its rows
                         else rows_of_arr plan_items its
                                (rows @ [replace_quotes (py_or (pi_title item) ''Untitled Cue'')])))"

fun rows_of_sequences ::
  "plan_item list \<Rightarrow> (string \<rightharpoonup> item_time list) \<Rightarrow> (string \<times> arr_ref) list \<Rightarrow> string list \<Rightarrow> string list" where
  "rows_of_sequences plan_items bt [] rows = rows"
| "rows_of_sequences plan_items bt ((lbl, r) # sqs) rows =
     rows_of_sequences plan_items bt sqs (rows_of_arr plan_items (deref bt r) rows)"

text \<open>The loop over \<^verbatim>\<open>enumerate(rows)\<close>: lines 592 to 594.\<close>

fun enumerate_rows :: "int \<Rightarrow> int \<Rightarrow> string list \<Rightarrow> preview_row list" where
  "enumerate_rows off i [] = []"
| "enumerate_rows off i (n # ns) =
     \<lparr>name = n, snap_index = off + i, seq = i + 1\<rparr> # enumerate_rows off (i + 1) ns"

text \<open>
  Lines 531 to 571 without the offset: the label map, the selected time ids, \<^verbatim>\<open>by_time\<close>
  and the loop over the selected labels. The result is the store after all sorts, and
  \<^verbatim>\<open>sequences\<close>.
\<close>

definition sequences :: "plan_time list \<Rightarrow> item_time list \<Rightarrow> string list \<Rightarrow> seq_state" where
  "sequences pts included_item_times selected_time_labels =
     (let m = time_id_by_label pts Map.empty;
          tids = selected_time_ids m selected_time_labels [];
          bt = by_time_fill included_item_times (by_time_init tids)
      in sequences_labels m selected_time_labels (bt, []))"

text \<open>The lists the loop of line 574 walks: every entry of \<^verbatim>\<open>sequences\<close> with its list.\<close>

definition sequences_lists ::
  "plan_time list \<Rightarrow> item_time list \<Rightarrow> string list \<Rightarrow> (string \<times> item_time list) list" where
  "sequences_lists pts included_item_times selected_time_labels =
     (case sequences pts included_item_times selected_time_labels of
        (bt, sqs) \<Rightarrow> map (\<lambda>sq. (fst sq, deref bt (snd sq))) sqs)"

text \<open>
  The function returns \<^verbatim>\<open>(rows, snapshot_offset, err)\<close>; \<^verbatim>\<open>self.items_data.get\<close>
  raises \<^verbatim>\<open>AttributeError\<close> when the attribute is bound to \<^verbatim>\<open>None\<close>.
\<close>

definition collect_preview_rows ::
  "pylib \<Rightarrow> app \<Rightarrow> exn + (preview_row list \<times> int \<times> string option)" where
  "collect_preview_rows lib self =
     (if \<not> hasattr (items_data self) \<or> \<not> hasattr (times_data self)
      then Inr ([], 0, Some ''Load plan times first.'')
      else
        let sel = curselection (lst_times self) in
        if sel = [] then Inr ([], 0, Some ''Select at least one plan time.'')
        else
          let selected_time_labels = map (lb_get (lst_times self)) sel;
              off = snapshot_offset lib (chk_has_existing self) (var_existing_count self)
          in case items_data self of
               Val doc \<Rightarrow>
                 (case sequences (plan_times self) (doc_included doc) selected_time_labels of
                    (bt, sqs) \<Rightarrow>
                      Inr (enumerate_rows off 0 (rows_of_sequences (doc_data doc) bt sqs []), off, None))
             | _ \<Rightarrow> Inl AttributeError)"

section \<open>The Time Bucket Normalizer: \<^verbatim>\<open>format_time_label\<close> and \<^verbatim>\<open>on_load_plan_times\<close>\<close>






text \<open>
  \<^verbatim>\<open>sorted(xs, key=...)\<close> with datetime keys: a stable sort that orders the keys with
  their less-than and lets its exception through. It is written here as the insertion
  sort that puts an element before the first element after it that is not smaller. Any
  stable sort returns the same list when all keys compare; when keys of both kinds occur
  no comparison sort can finish without comparing a naive key with an aware one, which
  raises \<^verbatim>\<open>TypeError\<close>.
\<close>

fun insort_dt :: "('a \<Rightarrow> datetime) \<Rightarrow> 'a \<Rightarrow> 'a list \<Rightarrow> exn + 'a list" where
  "insort_dt key x [] = Inr [x]"
| "insort_dt key x (y # ys) =
     (case dt_less (key y) (key x) of
        Inl e \<Rightarrow> Inl e
      | Inr lt \<Rightarrow>
          if lt then (case insort_dt key x ys of Inl e \<Rightarrow> Inl e | Inr zs \<Rightarrow> Inr (y # zs))
          else Inr (x # y # ys))"

fun py_sorted :: "('a \<Rightarrow> datetime) \<Rightarrow> 'a list \<Rightarrow> exn + 'a list" where
  "py_sorted key [] = Inr []"
| "py_sorted key (x # xs) =
     (case py_sorted key xs of Inl e \<Rightarrow> Inl e | Inr ys \<Rightarrow> insort_dt key x ys)"




section \<open>The Command Emitter: the loop of \<^verbatim>\<open>on_send\<close>\<close>

text \<open>\<^verbatim>\<open>f"{snap_index}"\<close>: an integer in decimal.\<close>

fun str_nat :: "nat \<Rightarrow> string" where
  "str_nat n =
     (if n < 10 then [''0123456789'' ! n]
      else str_nat (n div 10) @ [''0123456789'' ! (n mod 10)])"

definition str_int :: "int \<Rightarrow> string" where
  "str_int i = (if i < 0 then CHR ''-'' # str_nat (nat (- i)) else str_nat (nat i))"

datatype osc_arg = OscInt int | OscStr string

type_synonym osc_msg = "string \<times> osc_arg"

definition new_snapshot_msg :: "int \<Rightarrow> osc_msg" where
  "new_snapshot_msg idx = (''/Snapshots/New_Snapshot/'' @ str_int idx, OscInt 0)"

definition rename_snapshot_msg :: "int \<Rightarrow> string \<Rightarrow> osc_msg" where
  "rename_snapshot_msg idx nm = (''/Snapshots/Rename_Snapshot/'' @ str_int idx, OscStr nm)"

text \<open>
  What a run does, in order: a message handed to \<^verbatim>\<open>client.send_message\<close> that returned,
  one on which it raised, a \<^verbatim>\<open>time.sleep\<close> (in milliseconds), and the two log lines.
\<close>

datatype event =
    Sent osc_msg
  | Raised osc_msg exn
  | Slept nat
  | LogSnapshot int string
  | LogOscError int exn

text \<open>
  The state of the loop: the client (any state the transport keeps), the counter
  \<^verbatim>\<open>created\<close> and the events so far. \<^verbatim>\<open>send_message\<close> is a parameter: it returns the
  exception it raised, if any, and the client afterwards.
\<close>

record 'c sender =
  client :: 'c
  created :: int
  events :: "event list"

text \<open>One pass of the loop body, lines 647 to 657: the two sends share one \<^verbatim>\<open>try\<close>.\<close>

definition send_row ::
  "('c \<Rightarrow> osc_msg \<Rightarrow> exn option \<times> 'c) \<Rightarrow> preview_row \<Rightarrow> 'c sender \<Rightarrow> 'c sender" where
  "send_row send_message row st =
     (let nm = name row; idx = snap_index row
      in case send_message (client st) (new_snapshot_msg idx) of
           (Some e, c1) \<Rightarrow>
             st\<lparr>client := c1,
                events := events st @ [Raised (new_snapshot_msg idx) e, LogOscError idx e]\<rparr>
         | (None, c1) \<Rightarrow>
             (case send_message c1 (rename_snapshot_msg idx nm) of
                (Some e, c2) \<Rightarrow>
                  st\<lparr>client := c2,
                     events := events st @ [Sent (new_snapshot_msg idx), Slept 200,
                                            Raised (rename_snapshot_msg idx nm) e, LogOscError idx e]\<rparr>
              | (None, c2) \<Rightarrow>
                  st\<lparr>client := c2, created := created st + 1,
                     events := events st @ [Sent (new_snapshot_msg idx), Slept 200,
                                            Sent (rename_snapshot_msg idx nm), Slept 200,
                                            LogSnapshot idx nm]\<rparr>))"

fun send_rows ::
  "('c \<Rightarrow> osc_msg \<Rightarrow> exn option \<times> 'c) \<Rightarrow> preview_row list \<Rightarrow> 'c sender \<Rightarrow> 'c sender" where
  "send_rows send_message [] st = st"
| "send_rows send_message (row # rows) st =
     send_rows send_message rows (send_row send_message row st)"

text \<open>Lines 645 to 659: \<^verbatim>\<open>created = 0\<close>, then the loop over \<^verbatim>\<open>self.preview_rows\<close>.\<close>

definition on_send_task ::
  "('c \<Rightarrow> osc_msg \<Rightarrow> exn option \<times> 'c) \<Rightarrow> 'c \<Rightarrow> preview_row list \<Rightarrow> 'c sender" where
  "on_send_task send_message c preview_rows =
     send_rows send_message preview_rows \<lparr>client = c, created = 0, events = []\<rparr>"


section \<open>The vocabulary of the properties\<close>

text \<open>
  The definitions above follow the source line by line. The ones below say what the
  properties talk about: the selected labels, the time ids behind a label, the item-times
  of a time bucket, and when an item-time yields a row.
\<close>

text \<open>The labels of the selected lines of the list box, from top to bottom.\<close>

definition selected_labels :: "app \<Rightarrow> string list" where
  "selected_labels self = map fst (filter snd (lst_times self))"

text \<open>The ids of the plan times that carry a label, in the order of the plan-time list.\<close>

definition ids_of_label :: "plan_time list \<Rightarrow> string \<Rightarrow> string list" where
  "ids_of_label pts lbl = map fst (filter (\<lambda>pt. or_default (fst (snd pt)) = or_default lbl) pts)"

text \<open>The item-times of one plan time, in the order of the document.\<close>

definition bucket :: "item_time list \<Rightarrow> string \<Rightarrow> item_time list" where
  "bucket its tid = filter (\<lambda>it. it_type it = Some ''ItemTime'' \<and> it_plan_time_id it = Some tid) its"

definition sorted_bucket :: "item_time list \<Rightarrow> string \<Rightarrow> item_time list" where
  "sorted_bucket its tid = sort_key ordering_key (bucket its tid)"

text \<open>All item-times the build walks: label by label, bucket by bucket.\<close>

definition flat_item_times :: "plan_time list \<Rightarrow> item_time list \<Rightarrow> string list \<Rightarrow> item_time list" where
  "flat_item_times pts its lbls =
     concat (map (\<lambda>lbl. concat (map (sorted_bucket its) (ids_of_label pts lbl))) lbls)"

text \<open>The plan item an item-time refers to, if it names one and the plan has it.\<close>

definition resolve :: "plan_item list \<Rightarrow> item_time \<Rightarrow> plan_item option" where
  "resolve plan_items it =
     (case it_item_id it of
        None \<Rightarrow> None
      | Some item_id \<Rightarrow> if item_id = [] then None else find_item plan_items item_id)"

definition cue_type :: "plan_item \<Rightarrow> bool" where
  "cue_type p = (pi_item_type p = Some ''item'' \<or> pi_item_type p = Some ''song'')"

text \<open>An item-time yields a row: not excluded, resolved, and of a cue type.\<close>

definition emits :: "plan_item list \<Rightarrow> item_time \<Rightarrow> bool" where
  "emits plan_items it =
     (it_exclude it \<noteq> Some True \<and>
      (case resolve plan_items it of None \<Rightarrow> False | Some p \<Rightarrow> cue_type p))"

text \<open>The reference an entry of \<^verbatim>\<open>sequences\<close> holds for a time id.\<close>

definition ref_of :: "(string \<rightharpoonup> item_time list) \<Rightarrow> string \<Rightarrow> arr_ref" where
  "ref_of bt tid = (case bt tid of None \<Rightarrow> Fresh | Some arr \<Rightarrow> Stored tid)"



text \<open>The messages handed to \<^verbatim>\<open>send_message\<close> in a run, and those on which it raised.\<close>

fun attempted :: "event list \<Rightarrow> osc_msg list" where
  "attempted [] = []"
| "attempted (Sent m # es) = m # attempted es"
| "attempted (Raised m e # es) = m # attempted es"
| "attempted (ev # es) = attempted es"

fun raised :: "event list \<Rightarrow> osc_msg list" where
  "raised [] = []"
| "raised (Raised m e # es) = m # raised es"
| "raised (ev # es) = raised es"

section \<open>Example inputs\<close>

text \<open>
  Library calls for the examples: blanks stripped at both ends, signed decimal numerals
  read as \<^verbatim>\<open>int\<close> reads them, two timestamps (one with an offset, one without) known
  to \<^verbatim>\<open>fromisoformat\<close>.
\<close>

definition strip_blanks :: "string \<Rightarrow> string" where
  "strip_blanks s = rev (dropWhile (\<lambda>c. c = CHR '' '') (rev (dropWhile (\<lambda>c. c = CHR '' '') s)))"

fun dec_nat :: "string \<Rightarrow> nat \<Rightarrow> nat option" where
  "dec_nat [] acc = Some acc"
| "dec_nat (c # cs) acc =
     (case map_of (zip ''0123456789'' [0, 1, 2, 3, 4, 5, 6, 7, 8, 9]) c of
        None \<Rightarrow> None
      | Some d \<Rightarrow> dec_nat cs (10 * acc + d))"

definition dec_int :: "string \<Rightarrow> int option" where
  "dec_int s =
     (case s of
        [] \<Rightarrow> None
      | c # cs \<Rightarrow>
          if c = CHR ''-'' then (if cs = [] then None else map_option (\<lambda>n. - int n) (dec_nat cs 0))
          else if c = CHR ''+'' then (if cs = [] then None else map_option int (dec_nat cs 0))
          else map_option int (dec_nat s 0))"

definition ex_lib :: pylib where
  "ex_lib = \<lparr>str_strip = strip_blanks, py_int = dec_int,
     fromisoformat = map_of
       [(''2024-05-05T14:00:00+00:00'', \<lparr>wall = 63850514400000000, utcoffset = Some 0\<rparr>),
        (''2024-05-05T16:00:00+00:00'', \<lparr>wall = 63850521600000000, utcoffset = Some 0\<rparr>),
        (''2024-05-05T09:00:00'', \<lparr>wall = 63850496400000000, utcoffset = None\<rparr>),
        (''2024-05-05T11:00:00'', \<lparr>wall = 63850503600000000, utcoffset = None\<rparr>)],
     local_clock = (\<lambda>d. None)\<rparr>"

text \<open>
  A plan with three plan times, two of them labelled 9:00 AM, and item-times that cover
  every way an entry is skipped.
\<close>

definition ex_it :: "string \<Rightarrow> string \<Rightarrow> string \<Rightarrow> item_time" where
  "ex_it tid item_id starts =
     \<lparr>it_type = Some ''ItemTime'', it_plan_time_id = Some tid, it_item_id = Some item_id,
      it_live_start_at = None, it_starts_at = Some starts, it_exclude = Some False\<rparr>"

definition ex_doc :: items_doc where
  "ex_doc = \<lparr>doc_included =
       [ex_it ''t1'' ''i1'' ''10:05'',
        ex_it ''t1'' ''i2'' ''10:00'',
        ex_it ''t1'' ''i3'' ''10:01'',
        (ex_it ''t1'' ''i2'' ''10:02'')\<lparr>it_exclude := Some True\<rparr>,
        (ex_it ''t3'' ''i5'' ''10:00'')\<lparr>it_live_start_at := Some ''10:45''\<rparr>,
        ex_it ''t3'' ''i9'' ''10:00'',
        ex_it ''t3'' ''i4'' ''10:00'',
        ex_it ''t2'' ''i1'' ''12:00'',
        (ex_it ''t1'' ''i1'' ''09:00'')\<lparr>it_type := Some ''Attachment''\<rparr>,
        (ex_it ''t3'' ''i5'' ''10:30'')\<lparr>it_item_id := None\<rparr>],
     doc_data =
       [\<lparr>pi_id = ''i1'', pi_item_type = Some ''song'', pi_title = Some ''Opening Song''\<rparr>,
        \<lparr>pi_id = ''i2'', pi_item_type = Some ''item'', pi_title = Some ''Welcome''\<rparr>,
        \<lparr>pi_id = ''i3'', pi_item_type = Some ''header'', pi_title = Some ''Worship''\<rparr>,
        \<lparr>pi_id = ''i4'', pi_item_type = Some ''item'',
         pi_title = Some (''He said '' @ [CHR 0x22] @ ''hi'' @ [CHR 0x22])\<rparr>,
        \<lparr>pi_id = ''i5'', pi_item_type = Some ''song'', pi_title = None\<rparr>]\<rparr>"

definition ex_plan_times :: "plan_time list" where
  "ex_plan_times = [(''t1'', ''9:00 AM'', None), (''t2'', ''11:00 AM'', None), (''t3'', ''9:00 AM'', None)]"

definition ex_app :: app where
  "ex_app = \<lparr>items_data = Val ex_doc, times_data = Val [], plan_times = ex_plan_times,
     lst_times = [(''9:00 AM'', True), (''11:00 AM'', False), (''9:00 AM'', False)],
     chk_has_existing = True, var_existing_count = '' 12''\<rparr>"

text \<open>A transport that raises on every send, and one that raises on the second send only.\<close>

definition always_raises :: "unit \<Rightarrow> osc_msg \<Rightarrow> exn option \<times> unit" where
  "always_raises c m = (Some OSError, c)"


definition never_raises :: "unit \<Rightarrow> osc_msg \<Rightarrow> exn option \<times> unit" where
  "never_raises c m = (None, c)"

definition ex_rows :: "preview_row list" where
  "ex_rows = [\<lparr>name = ''Opening Song'', snap_index = 0, seq = 1\<rparr>,
              \<lparr>name = ''Welcome'', snap_index = 1, seq = 2\<rparr>]"


text \<open>The rows the build makes of the example plan.\<close>

definition ex_result :: "preview_row list" where
  "ex_result =
     [\<lparr>name = ''Welcome'', snap_index = 12, seq = 1\<rparr>,
      \<lparr>name = ''Opening Song'', snap_index = 13, seq = 2\<rparr>,
      \<lparr>name = ''He said '' @ [CHR 0x27] @ ''hi'' @ [CHR 0x27], snap_index = 14, seq = 3\<rparr>,
      \<lparr>name = ''Untitled Cue'', snap_index = 15, seq = 4\<rparr>]"

text \<open>The two buckets labelled 9:00 AM of the example plan, sorted.\<close>

definition ex_t3_sorted :: "item_time list" where
  "ex_t3_sorted =
     [ex_it ''t3'' ''i9'' ''10:00'',
      ex_it ''t3'' ''i4'' ''10:00'',
      (ex_it ''t3'' ''i5'' ''10:30'')\<lparr>it_item_id := None\<rparr>,
      (ex_it ''t3'' ''i5'' ''10:00'')\<lparr>it_live_start_at := Some ''10:45''\<rparr>]"

definition ex_t1_sorted :: "item_time list" where
  "ex_t1_sorted =
     [ex_it ''t1'' ''i2'' ''10:00'',
      ex_it ''t1'' ''i3'' ''10:01'',
      (ex_it ''t1'' ''i2'' ''10:02'')\<lparr>it_exclude := Some True\<rparr>,
      ex_it ''t1'' ''i1'' ''10:05'']"





section \<open>The stages of the build, one by one\<close>

lemma hasattr_simps:
  "hasattr NoAttr = False" "hasattr PyNone = True" "hasattr (Val v) = True"
  by (simp_all add: hasattr_def)

lemma selected_labels_eq:
  "map (lb_get lb) (curselection lb) = map fst (filter snd lb)"
proof -
  have "map (lb_get lb) (curselection lb)
      = map fst (filter snd (map (\<lambda>i. lb ! i) [0..<length lb]))"
    by (simp add: curselection_def lb_get_def filter_map comp_def)
  then show ?thesis by (simp add: map_nth)
qed

lemma curselection_Nil_iff: "curselection lb = [] \<longleftrightarrow> filter snd lb = []"
  using selected_labels_eq [of lb] by (metis map_is_Nil_conv)

lemma time_id_by_label_key:
  "get_list (time_id_by_label pts m) k
     = get_list m k @ map fst (filter (\<lambda>pt. or_default (fst (snd pt)) = k) pts)"
proof (induction pts arbitrary: m)
  case Nil
  then show ?case by simp
next
  case (Cons pt pts)
  obtain tid label dt where pt: "pt = (tid, label, dt)" by (cases pt)
  show ?case
    by (simp add: pt Cons.IH Let_def) (simp add: get_list_def split: option.splits)
qed

lemma time_id_by_label_get:
  "get_list (time_id_by_label pts Map.empty) (or_default lbl) = ids_of_label pts lbl"
  by (simp add: time_id_by_label_key ids_of_label_def) (simp add: get_list_def)

lemma selected_time_ids_eq:
  "selected_time_ids m lbls acc = acc @ concat (map (\<lambda>l. get_list m (or_default l)) lbls)"
  by (induction lbls arbitrary: acc) simp_all

lemma by_time_fill_eq:
  "by_time_fill its bt tid = map_option (\<lambda>arr. arr @ bucket its tid) (bt tid)"
proof (induction its arbitrary: bt)
  case Nil
  then show ?case by (simp add: bucket_def option.map_ident)
next
  case (Cons it its)
  show ?case
    by (cases "bt tid") (auto simp: Cons.IH bucket_def split: option.splits)
qed

lemma by_time_init_eq:
  "by_time_init tids tid = (if tid \<in> set tids then Some [] else None)"
  by (induction tids) (auto simp: by_time_init_def)

text \<open>Sorting a list that an earlier pass of the loop sorted leaves it as it is.\<close>

lemma sort_key_idem: "sort_key f (sort_key f xs) = sort_key f xs"
  by (rule sort_key_id_if_sorted) (rule sorted_sort_key)

lemma sequences_tids_eq:
  "sequences_tids lbl tids (bt, sqs) =
     ((\<lambda>t. if t \<in> set tids then map_option (sort_key ordering_key) (bt t) else bt t),
      sqs @ map (\<lambda>tid. (lbl, ref_of bt tid)) tids)"
proof (induction tids arbitrary: bt sqs)
  case Nil
  then show ?case by simp
next
  case (Cons tid tids)
  show ?case
  proof (cases "bt tid")
    case None
    then show ?thesis
      by (auto simp: Cons.IH ref_of_def fun_eq_iff)
  next
    case (Some arr)
    then show ?thesis
      by (auto simp: Cons.IH ref_of_def fun_eq_iff sort_key_idem split: option.splits)
  qed
qed

lemma sequences_labels_eq:
  "sequences_labels m lbls (bt, sqs) =
     ((\<lambda>t. if t \<in> (\<Union>l \<in> set lbls. set (get_list m (or_default l)))
            then map_option (sort_key ordering_key) (bt t) else bt t),
      sqs @ concat (map (\<lambda>l. map (\<lambda>tid. (l, ref_of bt tid)) (get_list m (or_default l))) lbls))"
proof (induction lbls arbitrary: bt sqs)
  case Nil
  then show ?case by simp
next
  case (Cons l lbls)
  have r: "ref_of (\<lambda>t. if t \<in> S then map_option f (bt t) else bt t) = ref_of bt" for S f
    by (auto simp: ref_of_def fun_eq_iff split: option.splits)
  show ?case
    by (auto simp: sequences_tids_eq Cons.IH r fun_eq_iff sort_key_idem option.map_comp comp_def
        intro!: option.map_cong)
qed

lemma concat_map_concat:
  "concat (map f (concat (map g xs))) = concat (map (\<lambda>x. concat (map f (g x))) xs)"
  by (induction xs) simp_all

text \<open>
  After the loop every entry of \<^verbatim>\<open>sequences\<close> holds the sorted bucket of its time id:
  the entries are the selected labels, each with the ids of its plan times in turn.
\<close>

lemma sequences_lists_eq:
  "sequences_lists pts its lbls
     = concat (map (\<lambda>l. map (\<lambda>tid. (l, sorted_bucket its tid)) (ids_of_label pts l)) lbls)"
proof -
  let ?m = "time_id_by_label pts Map.empty"
  let ?tids = "selected_time_ids ?m lbls []"
  let ?bt = "by_time_fill its (by_time_init ?tids)"
  let ?V = "\<Union>l \<in> set lbls. set (get_list ?m (or_default l))"
  obtain bt' sqs where res: "sequences_labels ?m lbls (?bt, []) = (bt', sqs)"
    by (cases "sequences_labels ?m lbls (?bt, [])")
  have bt: "?bt t = (if t \<in> set ?tids then Some (bucket its t) else None)" for t
    by (simp add: by_time_fill_eq by_time_init_eq)
  have V: "?V = set ?tids" by (simp add: selected_time_ids_eq)
  have "bt' = (\<lambda>t. if t \<in> ?V then map_option (sort_key ordering_key) (?bt t) else ?bt t)"
    using res by (simp add: sequences_labels_eq)
  then have bt': "bt' t = (if t \<in> set ?tids then map_option (sort_key ordering_key) (?bt t) else ?bt t)" for t
    unfolding V by simp
  have sqs: "sqs = concat (map (\<lambda>l. map (\<lambda>tid. (l, ref_of ?bt tid)) (get_list ?m (or_default l))) lbls)"
    using res by (simp add: sequences_labels_eq)
  have d: "deref bt' (ref_of ?bt t) = sorted_bucket its t" if "t \<in> set ?tids" for t
  proof -
    have "ref_of ?bt t = Stored t" using that by (simp add: ref_of_def bt)
    moreover have "bt' t = Some (sorted_bucket its t)"
      using that by (simp add: bt' bt sorted_bucket_def)
    ultimately show ?thesis by (simp add: deref_def get_list_def)
  qed
  have "sequences_lists pts its lbls = map (\<lambda>sq. (fst sq, deref bt' (snd sq))) sqs"
    using res by (simp add: sequences_lists_def sequences_def Let_def)
  also have "\<dots> = concat (map (\<lambda>l. map (\<lambda>tid. (l, deref bt' (ref_of ?bt tid)))
                                     (get_list ?m (or_default l))) lbls)"
    by (simp add: sqs map_concat comp_def)
  also have "\<dots> = concat (map (\<lambda>l. map (\<lambda>tid. (l, sorted_bucket its tid))
                                     (get_list ?m (or_default l))) lbls)"
  proof -
    have "map (\<lambda>tid. (l, deref bt' (ref_of ?bt tid))) (get_list ?m (or_default l))
        = map (\<lambda>tid. (l, sorted_bucket its tid)) (get_list ?m (or_default l))"
      if "l \<in> set lbls" for l
    proof (rule map_cong [OF refl])
      fix tid assume "tid \<in> set (get_list ?m (or_default l))"
      with that have "tid \<in> ?V" by blast
      then have "tid \<in> set ?tids" unfolding V .
      then show "(l, deref bt' (ref_of ?bt tid)) = (l, sorted_bucket its tid)"
        by (simp add: d)
    qed
    then show ?thesis by (metis (mono_tags, lifting) map_cong)
  qed
  finally show ?thesis by (simp add: time_id_by_label_get)
qed

lemma sequences_flat:
  assumes "sequences pts its lbls = (bt, sqs)"
  shows "concat (map (\<lambda>sq. deref bt (snd sq)) sqs) = flat_item_times pts its lbls"
proof -
  have "concat (map (\<lambda>sq. deref bt (snd sq)) sqs) = concat (map snd (sequences_lists pts its lbls))"
    using assms by (simp add: sequences_lists_def comp_def)
  then show ?thesis
    by (simp add: sequences_lists_eq flat_item_times_def concat_map_concat comp_def)
qed

text \<open>The loop over one list appends one name for every item-time that yields a row.\<close>

lemma rows_of_arr_eq:
  "rows_of_arr plan_items its rows
     = rows @ map (\<lambda>it. replace_quotes (py_or (pi_title (the (resolve plan_items it))) ''Untitled Cue''))
                (filter (emits plan_items) its)"
  by (induction its arbitrary: rows)
     (auto simp: emits_def resolve_def cue_type_def split: option.splits)

lemma rows_of_sequences_eq:
  "rows_of_sequences plan_items bt sqs rows
     = rows @ map (\<lambda>it. replace_quotes (py_or (pi_title (the (resolve plan_items it))) ''Untitled Cue''))
                (filter (emits plan_items) (concat (map (\<lambda>sq. deref bt (snd sq)) sqs)))"
  by (induction sqs arbitrary: rows) (auto simp: rows_of_arr_eq)

lemma enumerate_rows_length: "length (enumerate_rows off i ns) = length ns"
  by (induction ns arbitrary: i) simp_all

lemma enumerate_rows_nth:
  "k < length ns \<Longrightarrow>
     enumerate_rows off i ns ! k = \<lparr>name = ns ! k, snap_index = off + (i + int k), seq = i + int k + 1\<rparr>"
proof (induction ns arbitrary: i k)
  case Nil
  then show ?case by simp
next
  case (Cons n ns)
  then show ?case by (cases k) simp_all
qed

lemma enumerate_rows_names: "map name (enumerate_rows off i ns) = ns"
  by (induction ns arbitrary: i) simp_all

text \<open>
  The build on loaded data with a selection: it returns, without an error, one row for
  every item-time that yields one, in the order the build walks them.
\<close>

lemma collect_preview_rows_loaded:
  assumes doc: "items_data self = Val doc"
    and tms: "hasattr (times_data self)"
    and sel: "selected_labels self \<noteq> []"
  shows "collect_preview_rows lib self =
           Inr (enumerate_rows (snapshot_offset lib (chk_has_existing self) (var_existing_count self)) 0
                  (map (\<lambda>it. replace_quotes (py_or (pi_title (the (resolve (doc_data doc) it))) ''Untitled Cue''))
                     (filter (emits (doc_data doc))
                        (flat_item_times (plan_times self) (doc_included doc) (selected_labels self)))),
                snapshot_offset lib (chk_has_existing self) (var_existing_count self), None)"
proof -
  let ?lbls = "selected_labels self"
  obtain bt sqs where res: "sequences (plan_times self) (doc_included doc) ?lbls = (bt, sqs)"
    by (cases "sequences (plan_times self) (doc_included doc) ?lbls")
  have lbls: "map (lb_get (lst_times self)) (curselection (lst_times self)) = ?lbls"
    by (simp add: selected_labels_eq selected_labels_def)
  have ne: "curselection (lst_times self) \<noteq> []"
    using sel lbls by (metis map_is_Nil_conv)
  show ?thesis
    unfolding collect_preview_rows_def
    using doc tms ne
    by (simp add: lbls Let_def res rows_of_sequences_eq sequences_flat [OF res] hasattr_def)
qed

text \<open>Whatever the build returns without an error, it returned from loaded data.\<close>

lemma collect_preview_rows_ok:
  assumes "collect_preview_rows lib self = Inr (rows, off, None)"
  shows "\<exists>doc. items_data self = Val doc \<and> hasattr (times_data self) \<and> selected_labels self \<noteq> []"
proof -
  have h: "hasattr (items_data self)" "hasattr (times_data self)"
    using assms by (auto simp: collect_preview_rows_def split: if_splits)
  have ne: "curselection (lst_times self) \<noteq> []"
    using assms h by (auto simp: collect_preview_rows_def Let_def split: if_splits)
  then have sel: "selected_labels self \<noteq> []"
    by (simp add: selected_labels_def curselection_Nil_iff)
  obtain doc where "items_data self = Val doc"
    using assms h ne by (cases "items_data self") (auto simp: collect_preview_rows_def Let_def)
  with h sel show ?thesis by blast
qed

section \<open>The rows of a build\<close>

text \<open>
  C1. Whenever the build returns rows without an error, the offset it returns is the
  resolved offset and is not negative, the row at position \<open>k\<close> (from 0) has
  \<open>snap_index = offset + k\<close> and \<open>seq = k + 1\<close>, so \<open>seq = snap_index - offset + 1\<close>,
  and there are exactly as many rows as item-times that yield a row: an item-time that is
  skipped takes no index.
\<close>

theorem snap_index_contiguous:
  assumes "collect_preview_rows lib self = Inr (rows, off, None)"
  shows "off = snapshot_offset lib (chk_has_existing self) (var_existing_count self)
       \<and> 0 \<le> off
       \<and> (\<forall>k < length rows. snap_index (rows ! k) = off + int k
                             \<and> seq (rows ! k) = int k + 1
                             \<and> seq (rows ! k) = snap_index (rows ! k) - off + 1)
       \<and> (\<exists>doc. items_data self = Val doc
              \<and> length rows = length (filter (emits (doc_data doc))
                   (flat_item_times (plan_times self) (doc_included doc) (selected_labels self))))"
proof -
  obtain doc where doc: "items_data self = Val doc" and tms: "hasattr (times_data self)"
    and sel: "selected_labels self \<noteq> []"
    using collect_preview_rows_ok [OF assms] by blast
  let ?src = "filter (emits (doc_data doc))
                (flat_item_times (plan_times self) (doc_included doc) (selected_labels self))"
  let ?off = "snapshot_offset lib (chk_has_existing self) (var_existing_count self)"
  from collect_preview_rows_loaded [OF doc tms sel, of lib] assms
  have off: "off = ?off"
    and rows: "rows = enumerate_rows off 0
        (map (\<lambda>it. replace_quotes (py_or (pi_title (the (resolve (doc_data doc) it))) ''Untitled Cue'')) ?src)"
    by simp_all
  have len: "length rows = length ?src"
    by (simp add: rows enumerate_rows_length)
  have nonneg: "0 \<le> ?off"
    by (simp add: snapshot_offset_def Let_def split: option.splits)
  have idx: "snap_index (rows ! k) = off + int k \<and> seq (rows ! k) = int k + 1
             \<and> seq (rows ! k) = snap_index (rows ! k) - off + 1" if "k < length rows" for k
  proof -
    from that have "k < length ?src" by (simp add: len)
    then show ?thesis by (simp add: rows enumerate_rows_nth)
  qed
  show ?thesis using off nonneg idx doc len by blast
qed

theorem snap_index_contiguous_witness:
  "collect_preview_rows ex_lib ex_app = Inr (ex_result, 12, None)
   \<and> map snap_index ex_result = [12, 13, 14, 15]
   \<and> map seq ex_result = [1, 2, 3, 4]
   \<and> snap_index (ex_result ! 3) = 12 + 3
   \<and> seq (ex_result ! 3) = snap_index (ex_result ! 3) - 12 + 1"
proof -
  have h: "collect_preview_rows ex_lib ex_app = Inr (ex_result, 12, None)"
    by code_simp
  have "3 < length ex_result" by (simp add: ex_result_def)
  with snap_index_contiguous [OF h]
  have "snap_index (ex_result ! 3) = 12 + int 3
        \<and> seq (ex_result ! 3) = snap_index (ex_result ! 3) - 12 + 1"
    by blast
  with h show ?thesis by (simp add: ex_result_def)
qed




lemma replace_quotes_props:
  "length (replace_quotes t) = length t"
  "i < length t \<Longrightarrow> replace_quotes t ! i = (if t ! i = CHR 0x22 then CHR 0x27 else t ! i)"
  "CHR 0x22 \<notin> set (replace_quotes t)"
  "replace_quotes t = [] \<longleftrightarrow> t = []"
  by (auto simp: replace_quotes_def)



text \<open>
  C10. The name of every row is the title of the plan item its item-time resolves to,
  each double quote (character 0x22) replaced by a single quote (0x27), all other
  characters and the length kept. When that title is absent or empty the name is
  \<open>Untitled Cue\<close>. No name is empty, and no name holds a double quote.
\<close>

theorem row_name_sanitized:
  assumes "items_data self = Val doc" and "hasattr (times_data self)"
    and "selected_labels self \<noteq> []"
  shows "\<exists>rows off src.
           collect_preview_rows lib self = Inr (rows, off, None)
         \<and> src = filter (emits (doc_data doc))
                    (flat_item_times (plan_times self) (doc_included doc) (selected_labels self))
         \<and> length rows = length src
         \<and> (\<forall>k < length rows.
               \<exists>p. resolve (doc_data doc) (src ! k) = Some p
                 \<and> name (rows ! k) = replace_quotes (py_or (pi_title p) ''Untitled Cue'')
                 \<and> (pi_title p = None \<or> pi_title p = Some [] \<longrightarrow> name (rows ! k) = ''Untitled Cue'')
                 \<and> (\<forall>t. pi_title p = Some t \<and> t \<noteq> [] \<longrightarrow>
                        length (name (rows ! k)) = length t
                      \<and> (\<forall>i < length t. name (rows ! k) ! i
                                           = (if t ! i = CHR 0x22 then CHR 0x27 else t ! i)))
                 \<and> name (rows ! k) \<noteq> []
                 \<and> CHR 0x22 \<notin> set (name (rows ! k)))"
proof -
  let ?src = "filter (emits (doc_data doc))
                (flat_item_times (plan_times self) (doc_included doc) (selected_labels self))"
  let ?off = "snapshot_offset lib (chk_has_existing self) (var_existing_count self)"
  let ?nm = "\<lambda>it. replace_quotes (py_or (pi_title (the (resolve (doc_data doc) it))) ''Untitled Cue'')"
  let ?rows = "enumerate_rows ?off 0 (map ?nm ?src)"
  have build: "collect_preview_rows lib self = Inr (?rows, ?off, None)"
    by (rule collect_preview_rows_loaded [OF assms])
  have len: "length ?rows = length ?src"
    by (simp add: enumerate_rows_length)
  have each: "\<exists>p. resolve (doc_data doc) (?src ! k) = Some p
                 \<and> name (?rows ! k) = replace_quotes (py_or (pi_title p) ''Untitled Cue'')
                 \<and> (pi_title p = None \<or> pi_title p = Some [] \<longrightarrow> name (?rows ! k) = ''Untitled Cue'')
                 \<and> (\<forall>t. pi_title p = Some t \<and> t \<noteq> [] \<longrightarrow>
                        length (name (?rows ! k)) = length t
                      \<and> (\<forall>i < length t. name (?rows ! k) ! i
                                           = (if t ! i = CHR 0x22 then CHR 0x27 else t ! i)))
                 \<and> name (?rows ! k) \<noteq> []
                 \<and> CHR 0x22 \<notin> set (name (?rows ! k))"
    if "k < length ?rows" for k
  proof -
    from that have k: "k < length ?src" by (simp add: len)
    then have "?src ! k \<in> set ?src" by (rule nth_mem)
    then have "emits (doc_data doc) (?src ! k)" by simp
    then obtain p where r: "resolve (doc_data doc) (?src ! k) = Some p"
      by (auto simp: emits_def split: option.splits)
    have n: "name (?rows ! k) = replace_quotes (py_or (pi_title p) ''Untitled Cue'')"
      using k by (simp add: enumerate_rows_nth r)
    have d: "pi_title p = None \<or> pi_title p = Some [] \<longrightarrow> name (?rows ! k) = ''Untitled Cue''"
      unfolding n by (auto simp: py_or_def replace_quotes_def)
    have t: "\<forall>t. pi_title p = Some t \<and> t \<noteq> [] \<longrightarrow>
                        length (name (?rows ! k)) = length t
                      \<and> (\<forall>i < length t. name (?rows ! k) ! i
                                           = (if t ! i = CHR 0x22 then CHR 0x27 else t ! i))"
      unfolding n by (auto simp: py_or_def replace_quotes_props)
    have "py_or (pi_title p) ''Untitled Cue'' \<noteq> []"
      by (simp add: py_or_def split: option.splits)
    then have ne: "name (?rows ! k) \<noteq> []"
      unfolding n by (simp add: replace_quotes_props)
    have q: "CHR 0x22 \<notin> set (name (?rows ! k))"
      unfolding n by (rule replace_quotes_props)
    from r n d t ne q show ?thesis by blast
  qed
  from build len each show ?thesis by blast
qed

theorem row_name_sanitized_witness:
  "items_data ex_app = Val ex_doc \<and> hasattr (times_data ex_app) \<and> selected_labels ex_app \<noteq> []
   \<and> collect_preview_rows ex_lib ex_app = Inr (ex_result, 12, None)
   \<and> name (ex_result ! 2) = ''He said '' @ [CHR 0x27] @ ''hi'' @ [CHR 0x27]
   \<and> name (ex_result ! 3) = ''Untitled Cue''
   \<and> [] \<notin> set (map name ex_result)"
proof -
  have h1: "items_data ex_app = Val ex_doc" by (simp add: ex_app_def)
  have h2: "hasattr (times_data ex_app)" by (simp add: ex_app_def hasattr_def)
  have h3: "selected_labels ex_app \<noteq> []" by (simp add: ex_app_def selected_labels_def)
  have b: "collect_preview_rows ex_lib ex_app = Inr (ex_result, 12, None)" by code_simp
  from row_name_sanitized [OF h1 h2 h3, of ex_lib] b
  have "\<forall>k < length ex_result. name (ex_result ! k) \<noteq> []"
    by auto
  then have "[] \<notin> set (map name ex_result)"
    by (metis (no_types, lifting) in_set_conv_nth length_map nth_map)
  with h1 h2 h3 b show ?thesis by (simp add: ex_result_def)
qed

section \<open>Order within a bucket, and buckets that share a label\<close>

text \<open>
  C7. Every list the build walks is the bucket of one time id of its label, reordered:
  it has the same item-times, its ordering keys ascend in the order of strings, and the
  item-times of equal key stand in the order they have in the document (the sort is
  stable). The ordering key is the live start when that is present and not empty, else
  the scheduled start when that is present and not empty, else the empty string.
\<close>

theorem bucket_sorted_stable:
  "(\<forall>sq \<in> set (sequences_lists pts its lbls).
      \<exists>tid. tid \<in> set (ids_of_label pts (fst sq))
        \<and> mset (snd sq) = mset (bucket its tid)
        \<and> sorted (map ordering_key (snd sq))
        \<and> (\<forall>k. filter (\<lambda>x. ordering_key x = k) (snd sq)
                 = filter (\<lambda>x. ordering_key x = k) (bucket its tid)))
   \<and> (\<forall>x. ordering_key x =
          (if it_live_start_at x \<noteq> None \<and> it_live_start_at x \<noteq> Some []
           then the (it_live_start_at x)
           else if it_starts_at x \<noteq> None \<and> it_starts_at x \<noteq> Some []
           then the (it_starts_at x)
           else []))"
proof (intro conjI ballI allI)
  fix sq assume "sq \<in> set (sequences_lists pts its lbls)"
  then obtain l tid where "l \<in> set lbls" and tid: "tid \<in> set (ids_of_label pts l)"
    and sq: "sq = (l, sorted_bucket its tid)"
    by (auto simp: sequences_lists_eq)
  have "mset (snd sq) = mset (bucket its tid)"
    by (simp add: sq sorted_bucket_def)
  moreover have "sorted (map ordering_key (snd sq))"
    by (simp add: sq sorted_bucket_def)
  moreover have "\<forall>k. filter (\<lambda>x. ordering_key x = k) (snd sq)
                 = filter (\<lambda>x. ordering_key x = k) (bucket its tid)"
    by (simp add: sq sorted_bucket_def sort_key_stable)
  ultimately show "\<exists>tid. tid \<in> set (ids_of_label pts (fst sq))
        \<and> mset (snd sq) = mset (bucket its tid)
        \<and> sorted (map ordering_key (snd sq))
        \<and> (\<forall>k. filter (\<lambda>x. ordering_key x = k) (snd sq)
                 = filter (\<lambda>x. ordering_key x = k) (bucket its tid))"
    using tid by (auto simp: sq)
next
  fix x show "ordering_key x =
          (if it_live_start_at x \<noteq> None \<and> it_live_start_at x \<noteq> Some []
           then the (it_live_start_at x)
           else if it_starts_at x \<noteq> None \<and> it_starts_at x \<noteq> Some []
           then the (it_starts_at x)
           else [])"
    by (auto simp: ordering_key_def py_or_def split: option.splits)
qed

theorem bucket_sorted_stable_witness:
  "(''9:00 AM'', ex_t3_sorted) \<in> set (sequences_lists ex_plan_times (doc_included ex_doc) [''9:00 AM''])
   \<and> map ordering_key ex_t3_sorted = [''10:00'', ''10:00'', ''10:30'', ''10:45'']
   \<and> sorted (map ordering_key ex_t3_sorted)
   \<and> bucket (doc_included ex_doc) ''t3'' = [ex_t3_sorted ! 3, ex_t3_sorted ! 0, ex_t3_sorted ! 1, ex_t3_sorted ! 2]"
proof -
  have m: "(''9:00 AM'', ex_t3_sorted) \<in> set (sequences_lists ex_plan_times (doc_included ex_doc) [''9:00 AM''])"
    by code_simp
  from bucket_sorted_stable [of ex_plan_times "doc_included ex_doc" "[''9:00 AM'']"] m
  have s: "sorted (map ordering_key ex_t3_sorted)" by fastforce
  have k: "map ordering_key ex_t3_sorted = [''10:00'', ''10:00'', ''10:30'', ''10:45'']"
    by code_simp
  have b: "bucket (doc_included ex_doc) ''t3'' = [ex_t3_sorted ! 3, ex_t3_sorted ! 0, ex_t3_sorted ! 1, ex_t3_sorted ! 2]"
    by code_simp
  from m s k b show ?thesis by blast
qed

text \<open>
  C8. A selected label contributes, between what the labels selected before it and after
  it contribute, one list for every plan time that carries the label, in the order of the
  plan-time list, each the sorted bucket of that plan time. When the label is the only
  one selected, the rows are those of the loop body run over these buckets one after
  the other.
\<close>

theorem shared_label_selected_once:
  "sequences_lists pts its (before @ lbl # after)
     = sequences_lists pts its before
       @ map (\<lambda>tid. (lbl, sort_key ordering_key (bucket its tid)))
           (map fst (filter (\<lambda>pt. or_default (fst (snd pt)) = or_default lbl) pts))
       @ sequences_lists pts its after
   \<and> (items_data self = Val doc \<and> hasattr (times_data self) \<and> selected_labels self = [lbl] \<longrightarrow>
        (\<exists>off. collect_preview_rows lib self =
           Inr (enumerate_rows off 0
                  (rows_of_arr (doc_data doc)
                     (concat (map (\<lambda>tid. sort_key ordering_key (bucket (doc_included doc) tid))
                        (map fst (filter (\<lambda>pt. or_default (fst (snd pt)) = or_default lbl)
                                    (plan_times self))))) []),
                off, None)))"
proof (intro conjI impI)
  show "sequences_lists pts its (before @ lbl # after)
     = sequences_lists pts its before
       @ map (\<lambda>tid. (lbl, sort_key ordering_key (bucket its tid)))
           (map fst (filter (\<lambda>pt. or_default (fst (snd pt)) = or_default lbl) pts))
       @ sequences_lists pts its after"
    by (simp add: sequences_lists_eq ids_of_label_def sorted_bucket_def)
next
  assume a: "items_data self = Val doc \<and> hasattr (times_data self) \<and> selected_labels self = [lbl]"
  then have doc: "items_data self = Val doc" and tms: "hasattr (times_data self)"
    and sel: "selected_labels self \<noteq> []" and one: "selected_labels self = [lbl]"
    by simp_all
  show "\<exists>off. collect_preview_rows lib self =
           Inr (enumerate_rows off 0
                  (rows_of_arr (doc_data doc)
                     (concat (map (\<lambda>tid. sort_key ordering_key (bucket (doc_included doc) tid))
                        (map fst (filter (\<lambda>pt. or_default (fst (snd pt)) = or_default lbl)
                                    (plan_times self))))) []),
                off, None)"
    using collect_preview_rows_loaded [OF doc tms sel, of lib]
    by (simp add: one rows_of_arr_eq flat_item_times_def ids_of_label_def sorted_bucket_def comp_def)
qed

theorem shared_label_selected_once_witness:
  "map fst (filter (\<lambda>pt. or_default (fst (snd pt)) = or_default ''9:00 AM'') ex_plan_times) = [''t1'', ''t3'']
   \<and> sequences_lists ex_plan_times (doc_included ex_doc) [''9:00 AM'']
       = [(''9:00 AM'', ex_t1_sorted), (''9:00 AM'', ex_t3_sorted)]
   \<and> items_data ex_app = Val ex_doc \<and> hasattr (times_data ex_app)
   \<and> selected_labels ex_app = [''9:00 AM'']
   \<and> collect_preview_rows ex_lib ex_app
       = Inr (enumerate_rows 12 0 (rows_of_arr (doc_data ex_doc) (ex_t1_sorted @ ex_t3_sorted) []), 12, None)
   \<and> enumerate_rows 12 0 (rows_of_arr (doc_data ex_doc) (ex_t1_sorted @ ex_t3_sorted) []) = ex_result"
proof -
  have i: "map fst (filter (\<lambda>pt. or_default (fst (snd pt)) = or_default ''9:00 AM'') ex_plan_times) = [''t1'', ''t3'']"
    by code_simp
  have b1: "sort_key ordering_key (bucket (doc_included ex_doc) ''t1'') = ex_t1_sorted"
    by code_simp
  have b3: "sort_key ordering_key (bucket (doc_included ex_doc) ''t3'') = ex_t3_sorted"
    by code_simp
  have e: "sequences_lists ex_plan_times (doc_included ex_doc) [] = []"
    by code_simp
  have h: "items_data ex_app = Val ex_doc \<and> hasattr (times_data ex_app)
           \<and> selected_labels ex_app = [''9:00 AM'']"
    by (simp add: ex_app_def hasattr_def selected_labels_def)
  have p: "plan_times ex_app = ex_plan_times" by (simp add: ex_app_def)
  have o: "snapshot_offset ex_lib (chk_has_existing ex_app) (var_existing_count ex_app) = 12"
    by code_simp
  note t = shared_label_selected_once [of ex_plan_times "doc_included ex_doc" "[]" "''9:00 AM''" "[]" ex_app ex_doc ex_lib]
  from t have s: "sequences_lists ex_plan_times (doc_included ex_doc) [''9:00 AM'']
       = [(''9:00 AM'', ex_t1_sorted), (''9:00 AM'', ex_t3_sorted)]"
    by (simp add: i b1 b3 e)
  from t h obtain off where b: "collect_preview_rows ex_lib ex_app
       = Inr (enumerate_rows off 0 (rows_of_arr (doc_data ex_doc) (ex_t1_sorted @ ex_t3_sorted) []), off, None)"
    by (auto simp: p i b1 b3)
  from collect_preview_rows_ok [OF b] obtain d where "items_data ex_app = Val d" "hasattr (times_data ex_app)" "selected_labels ex_app \<noteq> []" by blast
  from collect_preview_rows_loaded [OF this, of ex_lib] b o have "off = 12" by simp
  with b have r: "collect_preview_rows ex_lib ex_app
       = Inr (enumerate_rows 12 0 (rows_of_arr (doc_data ex_doc) (ex_t1_sorted @ ex_t3_sorted) []), 12, None)"
    by simp
  have v: "enumerate_rows 12 0 (rows_of_arr (doc_data ex_doc) (ex_t1_sorted @ ex_t3_sorted) []) = ex_result"
    by code_simp
  from i s h r v show ?thesis by blast
qed

section \<open>The offset, and the two errors of the build\<close>

text \<open>
  C9. Given that \<^verbatim>\<open>int("0")\<close> is 0 and \<^verbatim>\<open>int("")\<close> raises, as Python's do: with the flag
  off the offset is 0 whatever the count says; with the flag on it is the stripped count
  read as an integer, and 0 when that fails or is negative. The offset a build returns is
  this one.
\<close>

theorem offset_policy:
  assumes "py_int lib ''0'' = Some 0" and "py_int lib [] = None"
  shows "snapshot_offset lib False count_text = 0
       \<and> snapshot_offset lib True count_text =
           (case py_int lib (str_strip lib count_text) of
              None \<Rightarrow> 0
            | Some n \<Rightarrow> if n < 0 then 0 else n)
       \<and> (\<forall>rows off. collect_preview_rows lib self = Inr (rows, off, None) \<longrightarrow>
             off = snapshot_offset lib (chk_has_existing self) (var_existing_count self))"
proof (intro conjI allI impI)
  show "snapshot_offset lib False count_text = 0"
    by (simp add: snapshot_offset_def Let_def)
  show "snapshot_offset lib True count_text =
           (case py_int lib (str_strip lib count_text) of
              None \<Rightarrow> 0
            | Some n \<Rightarrow> if n < 0 then 0 else n)"
    using assms by (simp add: snapshot_offset_def Let_def split: option.splits)
next
  fix rows off
  assume r: "collect_preview_rows lib self = Inr (rows, off, None)"
  obtain doc where "items_data self = Val doc" "hasattr (times_data self)" "selected_labels self \<noteq> []"
    using collect_preview_rows_ok [OF r] by blast
  from collect_preview_rows_loaded [OF this, of lib] r
  show "off = snapshot_offset lib (chk_has_existing self) (var_existing_count self)"
    by simp
qed

theorem offset_policy_witness:
  "py_int ex_lib ''0'' = Some 0 \<and> py_int ex_lib [] = None
   \<and> snapshot_offset ex_lib False ''12'' = 0
   \<and> snapshot_offset ex_lib True ''12'' = 12
   \<and> snapshot_offset ex_lib True ''-5'' = 0
   \<and> snapshot_offset ex_lib True ''abc'' = 0
   \<and> snapshot_offset ex_lib True '''' = 0"
proof -
  have h1: "py_int ex_lib ''0'' = Some 0" by code_simp
  have h2: "py_int ex_lib [] = None" by code_simp
  have p: "py_int ex_lib (str_strip ex_lib ''12'') = Some 12"
    "py_int ex_lib (str_strip ex_lib ''-5'') = Some (- 5)"
    "py_int ex_lib (str_strip ex_lib ''abc'') = None"
    "py_int ex_lib (str_strip ex_lib '''') = None"
    by code_simp+
  from offset_policy [OF h1 h2, of "''12''"] offset_policy [OF h1 h2, of "''-5''"]
    offset_policy [OF h1 h2, of "''abc''"] offset_policy [OF h1 h2, of "''''"] h1 h2
  show ?thesis by (simp add: p)
qed



section \<open>The send loop\<close>



lemma attempted_append: "attempted (xs @ ys) = attempted xs @ attempted ys"
  by (induction xs rule: attempted.induct) simp_all

lemma raised_append: "raised (xs @ ys) = raised xs @ raised ys"
  by (induction xs rule: raised.induct) simp_all

lemma attempted_concat: "attempted (concat xss) = concat (map attempted xss)"
  by (induction xss) (simp_all add: attempted_append)

lemma raised_concat: "raised (concat xss) = concat (map raised xss)"
  by (induction xss) (simp_all add: raised_append)








text \<open>
  C4, as stated, fails: on a transport that raises on every send, the one row's create
  raises and its rename is never handed to the transport.
\<close>

theorem rename_skipped_when_create_raises:
  "fst (always_raises () (new_snapshot_msg 0)) = Some OSError
   \<and> events (on_send_task always_raises () [\<lparr>name = ''Opening Song'', snap_index = 0, seq = 1\<rparr>])
       = [Raised (new_snapshot_msg 0) OSError, LogOscError 0 OSError]
   \<and> rename_snapshot_msg 0 ''Opening Song''
       \<notin> set (attempted (events (on_send_task always_raises ()
                                    [\<lparr>name = ''Opening Song'', snap_index = 0, seq = 1\<rparr>])))"
  by code_simp


text \<open>
  C4, amended. In one pass of the loop body the rename is handed to the transport exactly
  when the create returned: if the create raised, the pass ends with the error logged,
  no sleep, no rename and the counter unchanged; if it returned, the sleep and the rename
  follow.
\<close>

theorem rename_only_after_create_returned:
  "(\<forall>e c1. send_message (client st) (new_snapshot_msg (snap_index row)) = (Some e, c1) \<longrightarrow>
        events (send_row send_message row st)
          = events st @ [Raised (new_snapshot_msg (snap_index row)) e, LogOscError (snap_index row) e]
      \<and> attempted (events (send_row send_message row st))
          = attempted (events st) @ [new_snapshot_msg (snap_index row)]
      \<and> created (send_row send_message row st) = created st)
   \<and> (\<forall>c1. send_message (client st) (new_snapshot_msg (snap_index row)) = (None, c1) \<longrightarrow>
        attempted (events (send_row send_message row st))
          = attempted (events st) @ [new_snapshot_msg (snap_index row),
                                     rename_snapshot_msg (snap_index row) (name row)]
      \<and> (\<exists>rest. events (send_row send_message row st)
                   = events st @ [Sent (new_snapshot_msg (snap_index row)), Slept 200] @ rest))"
proof (intro conjI allI impI)
  fix e c1
  assume a: "send_message (client st) (new_snapshot_msg (snap_index row)) = (Some e, c1)"
  then show ev: "events (send_row send_message row st)
          = events st @ [Raised (new_snapshot_msg (snap_index row)) e, LogOscError (snap_index row) e]"
    by (simp add: send_row_def Let_def)
  show "attempted (events (send_row send_message row st))
          = attempted (events st) @ [new_snapshot_msg (snap_index row)]"
    by (simp add: ev attempted_append)
  from a show "created (send_row send_message row st) = created st"
    by (simp add: send_row_def Let_def)
next
  fix c1
  assume a: "send_message (client st) (new_snapshot_msg (snap_index row)) = (None, c1)"
  obtain r2 c2 where b: "send_message c1 (rename_snapshot_msg (snap_index row) (name row)) = (r2, c2)"
    by (cases "send_message c1 (rename_snapshot_msg (snap_index row) (name row))")
  have ev: "events (send_row send_message row st)
      = events st @ [Sent (new_snapshot_msg (snap_index row)), Slept 200]
          @ (case r2 of
               Some e \<Rightarrow> [Raised (rename_snapshot_msg (snap_index row) (name row)) e,
                          LogOscError (snap_index row) e]
             | None \<Rightarrow> [Sent (rename_snapshot_msg (snap_index row) (name row)), Slept 200,
                        LogSnapshot (snap_index row) (name row)])"
    using a b by (cases r2) (simp_all add: send_row_def Let_def)
  show "attempted (events (send_row send_message row st))
          = attempted (events st) @ [new_snapshot_msg (snap_index row),
                                     rename_snapshot_msg (snap_index row) (name row)]"
    by (cases r2) (simp_all add: ev attempted_append)
  show "\<exists>rest. events (send_row send_message row st)
                   = events st @ [Sent (new_snapshot_msg (snap_index row)), Slept 200] @ rest"
    using ev by blast
qed

theorem rename_only_after_create_returned_witness:
  "always_raises () (new_snapshot_msg 0) = (Some OSError, ())
   \<and> attempted (events (send_row always_raises (ex_rows ! 0) \<lparr>client = (), created = 0, events = []\<rparr>))
       = [new_snapshot_msg 0]
   \<and> never_raises () (new_snapshot_msg 0) = (None, ())
   \<and> attempted (events (send_row never_raises (ex_rows ! 0) \<lparr>client = (), created = 0, events = []\<rparr>))
       = [new_snapshot_msg 0, rename_snapshot_msg 0 ''Opening Song'']"
proof -
  let ?st = "\<lparr>client = (), created = 0, events = []\<rparr>"
  have r0: "snap_index (ex_rows ! 0) = 0" "name (ex_rows ! 0) = ''Opening Song''"
    by (simp_all add: ex_rows_def)
  have h1: "always_raises (client ?st) (new_snapshot_msg (snap_index (ex_rows ! 0))) = (Some OSError, ())"
    by (simp add: always_raises_def)
  have h2: "never_raises (client ?st) (new_snapshot_msg (snap_index (ex_rows ! 0))) = (None, ())"
    by (simp add: never_raises_def)
  from rename_only_after_create_returned [of always_raises ?st "ex_rows ! 0"] h1
  have a1: "attempted (events (send_row always_raises (ex_rows ! 0) ?st))
          = attempted (events ?st) @ [new_snapshot_msg (snap_index (ex_rows ! 0))]"
    by blast
  from rename_only_after_create_returned [of never_raises ?st "ex_rows ! 0"] h2
  have a2: "attempted (events (send_row never_raises (ex_rows ! 0) ?st))
          = attempted (events ?st) @ [new_snapshot_msg (snap_index (ex_rows ! 0)),
                                     rename_snapshot_msg (snap_index (ex_rows ! 0)) (name (ex_rows ! 0))]"
    by blast
  from h1 h2 a1 a2 show ?thesis by (simp add: r0)
qed

section \<open>The plan-time list\<close>



text \<open>
  The sort of the plan times: on keys that all compare it is the stable sort by instant,
  and as soon as a naive and an aware key occur together it raises.
\<close>

lemma insort_dt_comparable:
  assumes "\<forall>y \<in> set ys. (utcoffset (key y) = None) = (utcoffset (key x) = None)"
  shows "insort_dt key x ys = Inr (insort_key (\<lambda>x. utc_instant (key x)) x ys)"
  using assms by (induction ys) (auto simp: dt_less_def)

lemma py_sorted_comparable:
  assumes "(\<forall>x \<in> set xs. utcoffset (key x) = None) \<or> (\<forall>x \<in> set xs. utcoffset (key x) \<noteq> None)"
  shows "py_sorted key xs = Inr (sort_key (\<lambda>x. utc_instant (key x)) xs)"
  using assms
proof (induction xs)
  case Nil
  then show ?case by simp
next
  case (Cons x xs)
  then have IH: "py_sorted key xs = Inr (sort_key (\<lambda>x. utc_instant (key x)) xs)"
    by auto
  have "\<forall>y \<in> set (sort_key (\<lambda>x. utc_instant (key x)) xs).
          (utcoffset (key y) = None) = (utcoffset (key x) = None)"
    using Cons.prems by auto
  then show ?case
    by (simp add: IH insort_dt_comparable)
qed

lemma py_sorted_mixed:
  assumes "a \<in> set xs" and "b \<in> set xs"
    and "utcoffset (key a) = None" and "utcoffset (key b) \<noteq> None"
  shows "py_sorted key xs = Inl TypeError"
  using assms
proof (induction xs arbitrary: a b)
  case Nil
  then show ?case by simp
next
  case (Cons x xs)
  show ?case
  proof (cases "(\<forall>y \<in> set xs. utcoffset (key y) = None) \<or> (\<forall>y \<in> set xs. utcoffset (key y) \<noteq> None)")
    case False
    then obtain a' b' where "a' \<in> set xs" "b' \<in> set xs"
      "utcoffset (key a') = None" "utcoffset (key b') \<noteq> None"
      by blast
    then have "py_sorted key xs = Inl TypeError"
      by (rule Cons.IH)
    then show ?thesis by simp
  next
    case True
    then have s: "py_sorted key xs = Inr (sort_key (\<lambda>x. utc_instant (key x)) xs)"
      by (rule py_sorted_comparable)
    from True Cons.prems have ne: "xs \<noteq> []"
      and other: "\<forall>y \<in> set xs. (utcoffset (key y) = None) \<noteq> (utcoffset (key x) = None)"
      by auto
    obtain y ys where ys: "sort_key (\<lambda>x. utc_instant (key x)) xs = y # ys"
      using ne by (cases "sort_key (\<lambda>x. utc_instant (key x)) xs") (auto dest: arg_cong [where f = length])
    then have "y \<in> set xs"
      by (metis list.set_intros(1) set_sort)
    with other have "dt_less (key y) (key x) = Inl TypeError"
      by (simp add: dt_less_def)
    then show ?thesis by (simp add: s ys)
  qed
qed






end
